theory Spec2Isabelle
  imports Complex_Main
begin

section \<open>The simulator object of EE2D_KP07_dimsplit.py\<close>

text \<open>
  Device pointers and streams are opaque handles. Grid and block sizes are the triples
  that \<^verbatim>\<open>hipModuleLaunchKernel\<close> receives. Field values, cell sizes and time steps are
  finite floating-point numbers in the source; they are read here as the real numbers
  they denote (comparison, absolute value and halving are exact on them).
\<close>

type_synonym devptr = nat
type_synonym hipStream = nat
type_synonym dim3 = "nat \<times> nat \<times> nat"

text \<open>
  Modelled from the spec: the field storage (\<^verbatim>\<open>Common.ArakawaA2D\<close> and the arrays it
  holds) is not part of the source files. A device array is a pointer with a shape; each
  of the four arrays of a FieldSet carries its data and its halo widths, and
  \<^verbatim>\<open>u[0]\<close> .. \<^verbatim>\<open>u[3]\<close> are density, the two momenta and energy.
\<close>

record DeviceArray =
  ptr :: devptr
  shape :: "nat \<times> nat"

definition size_of :: "DeviceArray \<Rightarrow> nat" where
  "size_of a = fst (shape a) * snd (shape a)"

record CudaArray2D =
  data :: DeviceArray
  x_halo :: int
  y_halo :: int

record ArakawaA2D =
  rho :: CudaArray2D
  rho_u :: CudaArray2D
  rho_v :: CudaArray2D
  E :: CudaArray2D

text \<open>
  The attributes of \<^verbatim>\<open>self\<close> that the methods read. Those set by the base class
  (\<^verbatim>\<open>nx\<close>, \<^verbatim>\<open>ny\<close>, \<^verbatim>\<open>dx\<close>, \<^verbatim>\<open>dy\<close>, \<^verbatim>\<open>boundary_conditions\<close>, \<^verbatim>\<open>grid_size\<close>,
  \<^verbatim>\<open>block_size\<close>, \<^verbatim>\<open>stream\<close>, \<^verbatim>\<open>internal_stream\<close>) are fields like the rest.
\<close>

record simulator =
  nx :: int
  ny :: int
  dx :: real
  dy :: real
  g :: real
  gamma :: real
  theta :: real
  boundary_conditions :: int
  grid_size :: dim3
  block_size :: dim3
  stream :: hipStream
  internal_stream :: hipStream
  u0 :: ArakawaA2D
  u1 :: ArakawaA2D
  cfl_data :: DeviceArray

section \<open>Calls into the HIP runtime\<close>

text \<open>
  The tuple \<^verbatim>\<open>extra\<close> of a launch, in the order of the source. Each field holds the
  Python value that is handed to \<^verbatim>\<open>ctypes.c_int\<close> or \<^verbatim>\<open>ctypes.c_float\<close>; the read and
  the write buffers are four pairs of a pointer and a row stride in bytes.
\<close>

record kernel_params =
  arg_nx :: int
  arg_ny :: int
  arg_dx :: real
  arg_dy :: real
  arg_dt :: real
  arg_g :: real
  arg_gamma :: real
  arg_theta :: real
  arg_substep :: int
  arg_boundary_conditions :: int
  arg_read :: "(devptr \<times> int) list"
  arg_write :: "(devptr \<times> int) list"
  arg_cfl_data :: devptr
  arg_x0 :: int
  arg_y0 :: int
  arg_x1 :: int
  arg_y1 :: int

text \<open>The source of a device-to-host copy: the index cell \<^verbatim>\<open>indx_d\<close> or a buffer.\<close>

datatype copy_source = indx_d | dev devptr

datatype hip_call =
    hipModuleLaunchKernel dim3 dim3 hipStream kernel_params
  | hipStreamSynchronize hipStream
  | hipMalloc nat
  | hipblasCreate
  | hipblasIsamin nat devptr
  | hipblasDestroy
  | hipMemcpyAsync copy_source nat hipStream
  | hipStreamDestroy hipStream
  | hipFree devptr

datatype py_error = RuntimeError | IndexError

text \<open>
  The first component of a call result: its Python type and its numeric code, where
  code 0 is \<^verbatim>\<open>hipSuccess\<close>, \<^verbatim>\<open>HIPRTC_SUCCESS\<close> and the hipBLAS success status.
\<close>

datatype err = hipError_t nat | hiprtcResult nat | hipblasStatus_t nat

fun hip_check :: "err \<Rightarrow> 'a \<Rightarrow> py_error + 'a" where
  "hip_check (hipError_t c) result = (if c \<noteq> 0 then Inl RuntimeError else Inr result)"
| "hip_check (hiprtcResult c) result = (if c \<noteq> 0 then Inl RuntimeError else Inr result)"
| "hip_check (hipblasStatus_t c) result = Inr result"

fun err_of :: "hip_call \<Rightarrow> nat \<Rightarrow> err" where
  "err_of hipblasCreate c = hipblasStatus_t c"
| "err_of (hipblasIsamin n p) c = hipblasStatus_t c"
| "err_of hipblasDestroy c = hipblasStatus_t c"
| "err_of call c = hipError_t c"

text \<open>
  What lies outside the Python object: the runtime's answer to each call (\<open>respond\<close>
  gives the status code of a call from the calls issued before it), the calls issued
  so far, oldest first, the streams that exist, the buffers the device holds with their
  contents, and the warnings emitted. The kernel is opaque, so what a launch writes is
  not tracked: \<open>memory\<close> is what the device holds when a buffer is read.
\<close>

record env =
  respond :: "hip_call list \<Rightarrow> hip_call \<Rightarrow> nat"
  calls :: "hip_call list"
  streams :: "hipStream set"
  memory :: "devptr \<rightharpoonup> real list"
  warnings :: "string list"

fun effect :: "hip_call \<Rightarrow> env \<Rightarrow> env" where
  "effect (hipStreamDestroy st) d = d\<lparr>streams := streams d - {st}\<rparr>"
| "effect (hipFree p) d = d\<lparr>memory := (memory d)(p := None)\<rparr>"
| "effect call d = d"

text \<open>
  One \<^verbatim>\<open>hip_check(hip.f(...))\<close>: the call is issued, and a failure status raises
  before the next statement runs.
\<close>

definition issue :: "hip_call \<Rightarrow> env \<Rightarrow> (py_error + unit) \<times> env" where
  "issue call d =
     (let d' = d\<lparr>calls := calls d @ [call]\<rparr>
      in case hip_check (err_of call (respond d (calls d) call)) () of
           Inl e \<Rightarrow> (Inl e, d')
         | Inr u \<Rightarrow> (Inr u, effect call d'))"

fun issue_all :: "hip_call list \<Rightarrow> env \<Rightarrow> (py_error + unit) \<times> env" where
  "issue_all [] d = (Inr (), d)"
| "issue_all (call # rest) d =
     (case issue call d of
        (Inl e, d') \<Rightarrow> (Inl e, d')
      | (Inr u, d') \<Rightarrow> issue_all rest d')"

section \<open>substep and substepDimsplit\<close>

definition strides0 :: "CudaArray2D \<Rightarrow> int" where
  "strides0 a = int (fst (shape (data a))) * 4"

definition buffers :: "ArakawaA2D \<Rightarrow> (devptr \<times> int) list" where
  "buffers u =
     [(ptr (data (rho u)), strides0 (rho u)),
      (ptr (data (rho_u u)), strides0 (rho_u u)),
      (ptr (data (rho_v u)), strides0 (rho_v u)),
      (ptr (data (E u)), strides0 (E u))]"

definition extra :: "simulator \<Rightarrow> real \<Rightarrow> int \<Rightarrow> int \<Rightarrow> int \<Rightarrow> int \<Rightarrow> int \<Rightarrow> kernel_params" where
  "extra s dt substep x0 y0 x1 y1 =
     \<lparr>arg_nx = nx s, arg_ny = ny s,
      arg_dx = dx s, arg_dy = dy s, arg_dt = dt,
      arg_g = g s,
      arg_gamma = gamma s,
      arg_theta = theta s,
      arg_substep = substep,
      arg_boundary_conditions = boundary_conditions s,
      arg_read = buffers (u0 s),
      arg_write = buffers (u1 s),
      arg_cfl_data = ptr (cfl_data s),
      arg_x0 = x0, arg_y0 = y0,
      arg_x1 = x1, arg_y1 = y1\<rparr>"

definition ns_grid_size :: "simulator \<Rightarrow> dim3" where
  "ns_grid_size s = (fst (grid_size s), 1, 1)"

definition we_grid_size :: "simulator \<Rightarrow> dim3" where
  "we_grid_size s = (1, fst (snd (grid_size s)), 1)"

definition complete_domain :: "simulator \<Rightarrow> real \<Rightarrow> int \<Rightarrow> kernel_params" where
  "complete_domain s dt substep = extra s dt substep 0 0 (nx s) (ny s)"

definition north :: "simulator \<Rightarrow> real \<Rightarrow> int \<Rightarrow> kernel_params" where
  "north s dt substep = extra s dt substep 0 (ny s - y_halo (rho (u0 s))) (nx s) (ny s)"

definition south :: "simulator \<Rightarrow> real \<Rightarrow> int \<Rightarrow> kernel_params" where
  "south s dt substep = extra s dt substep 0 0 (nx s) (y_halo (rho (u0 s)))"

definition west :: "simulator \<Rightarrow> real \<Rightarrow> int \<Rightarrow> kernel_params" where
  "west s dt substep = extra s dt substep 0 0 (x_halo (rho (u0 s))) (ny s)"

definition east :: "simulator \<Rightarrow> real \<Rightarrow> int \<Rightarrow> kernel_params" where
  "east s dt substep = extra s dt substep (nx s - x_halo (rho (u0 s))) 0 (nx s) (ny s)"

definition internal_domain :: "simulator \<Rightarrow> real \<Rightarrow> int \<Rightarrow> kernel_params" where
  "internal_domain s dt substep =
     extra s dt substep (x_halo (rho (u0 s))) (y_halo (rho (u0 s)))
       (nx s - x_halo (rho (u0 s))) (ny s - y_halo (rho (u0 s)))"

text \<open>
  The method assigns no attribute of \<^verbatim>\<open>self\<close>, so only the environment is returned.
  With both flags false none of the three tests holds and the method falls off its end.
\<close>

definition substepDimsplit ::
  "simulator \<Rightarrow> real \<Rightarrow> int \<Rightarrow> bool \<Rightarrow> bool \<Rightarrow> env \<Rightarrow> (py_error + unit) \<times> env" where
  "substepDimsplit s dt substep external internal d =
     (if external \<and> internal then
        issue_all
          [hipModuleLaunchKernel (grid_size s) (block_size s) (stream s)
             (complete_domain s dt substep)] d
      else if external \<and> \<not> internal then
        issue_all
          [hipModuleLaunchKernel (ns_grid_size s) (block_size s) (stream s)
             (north s dt substep),
           hipStreamSynchronize (stream s),
           hipModuleLaunchKernel (ns_grid_size s) (block_size s) (stream s)
             (south s dt substep),
           hipStreamSynchronize (stream s),
           hipModuleLaunchKernel (we_grid_size s) (block_size s) (stream s)
             (west s dt substep),
           hipStreamSynchronize (stream s),
           hipModuleLaunchKernel (we_grid_size s) (block_size s) (stream s)
             (east s dt substep)] d
      else if internal \<and> \<not> external then
        issue_all
          [hipModuleLaunchKernel (grid_size s) (block_size s) (internal_stream s)
             (internal_domain s dt substep)] d
      else (Inr (), d))"

definition substep ::
  "simulator \<Rightarrow> real \<Rightarrow> int \<Rightarrow> bool \<Rightarrow> bool \<Rightarrow> env \<Rightarrow> (py_error + unit) \<times> env" where
  "substep s dt step_number external internal d =
     substepDimsplit s (0.5 * dt) step_number external internal d"

section \<open>swapBuffers and getOutput\<close>

text \<open>
  The two attributes exchange their values, which are references to the FieldSets. The
  method issues no runtime call, so the environment is not involved.
\<close>

definition swapBuffers :: "simulator \<Rightarrow> simulator" where
  "swapBuffers s = s\<lparr>u0 := u1 s, u1 := u0 s\<rparr>"

definition getOutput :: "simulator \<Rightarrow> ArakawaA2D" where
  "getOutput s = u0 s"

section \<open>min_hipblas and computeDt\<close>

text \<open>
  The contract of the library routine \<^verbatim>\<open>hipblasIsamin\<close> with increment 1: the position,
  counted from 1, of the first element of least absolute value, and 0 for no elements.
\<close>

definition isamin_result :: "real list \<Rightarrow> nat" where
  "isamin_result xs =
     (if xs = [] then 0
      else Suc (length (takeWhile (\<lambda>x. \<bar>x\<bar> \<noteq> Min (set (map abs xs))) xs)))"

text \<open>Indexing a flat array: an index below zero counts from the end.\<close>

definition py_index :: "'a list \<Rightarrow> int \<Rightarrow> py_error + 'a" where
  "py_index xs i =
     (if 0 \<le> i \<and> i < int (length xs) then Inr (xs ! nat i)
      else if - int (length xs) \<le> i \<and> i < 0 then Inr (xs ! nat (i + int (length xs)))
      else Inl IndexError)"

text \<open>
  What a copy of \<open>n\<close> values from the buffer at \<open>p\<close> delivers. A buffer that the
  device does not hold, or holds with fewer values, delivers nothing.
\<close>

definition device_to_host :: "env \<Rightarrow> devptr \<Rightarrow> nat \<Rightarrow> real list option" where
  "device_to_host d p n =
     (case memory d p of
        None \<Rightarrow> None
      | Some xs \<Rightarrow> if n \<le> length xs then Some (take n xs) else None)"

text \<open>
  The statements of \<^verbatim>\<open>min_hipblas\<close> in their order. The index that the routine leaves
  in \<^verbatim>\<open>indx_d\<close> and the values copied to \<^verbatim>\<open>x_temp\<close> are those of the first
  \<open>num_elements\<close> values of the buffer; a copy that delivers nothing is taken to be
  refused by the runtime. An exception leaves the clean-up undone.
\<close>

definition min_hipblas :: "nat \<Rightarrow> DeviceArray \<Rightarrow> hipStream \<Rightarrow> env \<Rightarrow> (py_error + real) \<times> env" where
  "min_hipblas num_elements cfl st d =
     (let num_bytes = num_elements * 4; num_bytes_i = 4
      in case issue_all
                [hipMalloc num_bytes_i,
                 hipblasCreate,
                 hipblasIsamin num_elements (ptr cfl),
                 hipblasDestroy,
                 hipMemcpyAsync indx_d num_bytes_i st,
                 hipMemcpyAsync (dev (ptr cfl)) num_bytes st] d of
           (Inl e, d1) \<Rightarrow> (Inl e, d1)
         | (Inr u, d1) \<Rightarrow>
             (case device_to_host d1 (ptr cfl) num_elements of
                None \<Rightarrow> (Inl RuntimeError, d1)
              | Some x_temp \<Rightarrow>
                  (case issue (hipStreamSynchronize st) d1 of
                     (Inl e, d2) \<Rightarrow> (Inl e, d2)
                   | (Inr u, d2) \<Rightarrow>
                       (case py_index x_temp (int (isamin_result x_temp) - 1) of
                          Inl e \<Rightarrow> (Inl e, d2)
                        | Inr min_value \<Rightarrow>
                            (case issue_all [hipStreamDestroy st, hipFree (ptr cfl)] d2 of
                               (Inl e, d3) \<Rightarrow> (Inl e, d3)
                             | (Inr u, d3) \<Rightarrow> (Inr min_value, d3))))))"

definition computeDt :: "simulator \<Rightarrow> env \<Rightarrow> (py_error + real) \<times> env" where
  "computeDt s d =
     (case min_hipblas (size_of (cfl_data s)) (cfl_data s) (stream s) d of
        (Inl e, d') \<Rightarrow> (Inl e, d')
      | (Inr max_dt, d') \<Rightarrow> (Inr (max_dt * 0.5), d'))"

section \<open>Regions\<close>

text \<open>The cells of the sub-rectangle \<open>[x0, x1) \<times> [y0, y1)\<close> that a launch is given.\<close>

definition cells :: "kernel_params \<Rightarrow> (int \<times> int) set" where
  "cells a = {(x, y). arg_x0 a \<le> x \<and> x < arg_x1 a \<and> arg_y0 a \<le> y \<and> y < arg_y1 a}"

text \<open>
  Follows the spec's words: the full rectangle \<open>[0, nx) \<times> [0, ny)\<close>, and its boundary
  strip of width halo, the cells of the rectangle nearer than a halo width to an edge.
\<close>

definition full_rectangle :: "simulator \<Rightarrow> (int \<times> int) set" where
  "full_rectangle s = {(x, y). 0 \<le> x \<and> x < nx s \<and> 0 \<le> y \<and> y < ny s}"

definition boundary_strip :: "simulator \<Rightarrow> (int \<times> int) set" where
  "boundary_strip s =
     {(x, y). (x, y) \<in> full_rectangle s \<and>
        (x < x_halo (rho (u0 s)) \<or> nx s - x_halo (rho (u0 s)) \<le> x \<or>
         y < y_halo (rho (u0 s)) \<or> ny s - y_halo (rho (u0 s)) \<le> y)}"

section \<open>Reading a run\<close>

text \<open>The runtime accepts every call.\<close>

definition accepts :: "env \<Rightarrow> bool" where
  "accepts d = (\<forall>h call. respond d h call = 0)"

text \<open>The calls a method has added to the history, and the launches among some calls.\<close>

definition issued :: "env \<Rightarrow> env \<Rightarrow> hip_call list" where
  "issued d d' = drop (length (calls d)) (calls d')"

fun launches :: "hip_call list \<Rightarrow> (hipStream \<times> kernel_params) list" where
  "launches [] = []"
| "launches (hipModuleLaunchKernel gd bd st a # cs) = (st, a) # launches cs"
| "launches (call # cs) = launches cs"

text \<open>
  Every launch in a list of calls is directly followed by a barrier on its own stream.
\<close>

fun launches_followed_by_barrier :: "hip_call list \<Rightarrow> bool" where
  "launches_followed_by_barrier [] = True"
| "launches_followed_by_barrier (hipModuleLaunchKernel gd bd st a # cs) =
     (case cs of
        hipStreamSynchronize st' # rest \<Rightarrow> st' = st \<and> launches_followed_by_barrier cs
      | _ \<Rightarrow> False)"
| "launches_followed_by_barrier (call # cs) = launches_followed_by_barrier cs"

text \<open>
  Every reduction over a buffer comes after a barrier on each stream that has a launch
  writing that buffer: \<open>ps\<close> lists the launches not yet followed by a barrier on their
  stream, as pairs of the stream and the CFL buffer the launch writes.
\<close>

fun reduction_after_barrier :: "(hipStream \<times> devptr) list \<Rightarrow> hip_call list \<Rightarrow> bool" where
  "reduction_after_barrier ps [] = True"
| "reduction_after_barrier ps (hipModuleLaunchKernel gd bd st a # cs) =
     reduction_after_barrier ((st, arg_cfl_data a) # ps) cs"
| "reduction_after_barrier ps (hipStreamSynchronize st # cs) =
     reduction_after_barrier (filter (\<lambda>q. fst q \<noteq> st) ps) cs"
| "reduction_after_barrier ps (hipblasIsamin n p # cs) =
     (p \<notin> snd ` set ps \<and> reduction_after_barrier ps cs)"
| "reduction_after_barrier ps (call # cs) = reduction_after_barrier ps cs"

section \<open>An example simulator\<close>

text \<open>
  A grid of 48 by 8 cells with blocks of 16 by 8 threads, so three blocks; halo 2 on
  every array; the CFL buffer at address 9 holds one value for each block.
\<close>

definition example_array :: "devptr \<Rightarrow> CudaArray2D" where
  "example_array p = \<lparr>data = \<lparr>ptr = p, shape = (12, 52)\<rparr>, x_halo = 2, y_halo = 2\<rparr>"

definition example_fields :: "devptr \<Rightarrow> ArakawaA2D" where
  "example_fields p =
     \<lparr>rho = example_array p, rho_u = example_array (p + 1),
      rho_v = example_array (p + 2), E = example_array (p + 3)\<rparr>"

definition example_sim :: simulator where
  "example_sim =
     \<lparr>nx = 48, ny = 8, dx = 1, dy = 1, g = 0, gamma = 1.4, theta = 1.3,
      boundary_conditions = 0,
      grid_size = (3, 1, 1), block_size = (16, 8, 1),
      stream = 1, internal_stream = 2,
      u0 = example_fields 10, u1 = example_fields 20,
      cfl_data = \<lparr>ptr = 9, shape = (3, 1)\<rparr>\<rparr>"

definition example_env :: "real list \<Rightarrow> env" where
  "example_env xs =
     \<lparr>respond = (\<lambda>h call. 0), calls = [], streams = {1, 2},
      memory = [9 \<mapsto> xs], warnings = []\<rparr>"

section \<open>Runs that the runtime accepts\<close>

lemma effect_respond: "respond (effect call d) = respond d"
  by (cases call) simp_all

lemma effect_calls: "calls (effect call d) = calls d"
  by (cases call) simp_all

lemma accepts_effect: "accepts (effect call d) = accepts d"
  by (simp add: accepts_def effect_respond)

lemma accepts_calls: "accepts (d\<lparr>calls := cs\<rparr>) = accepts d"
  by (simp add: accepts_def)

lemma issue_accepted:
  "accepts d \<Longrightarrow> issue call d = (Inr (), effect call (d\<lparr>calls := calls d @ [call]\<rparr>))"
  by (cases call) (simp_all add: issue_def accepts_def)

lemma issue_launch:
  "accepts d \<Longrightarrow>
   issue (hipModuleLaunchKernel gd bd st a) d =
     (Inr (), d\<lparr>calls := calls d @ [hipModuleLaunchKernel gd bd st a]\<rparr>)"
  by (simp add: issue_accepted)

lemma issue_sync:
  "accepts d \<Longrightarrow>
   issue (hipStreamSynchronize st) d =
     (Inr (), d\<lparr>calls := calls d @ [hipStreamSynchronize st]\<rparr>)"
  by (simp add: issue_accepted)

lemma issued_append: "issued d (d\<lparr>calls := calls d @ cs\<rparr>) = cs"
  by (simp add: issued_def)

lemma example_env_accepts: "accepts (example_env xs)"
  by (simp add: accepts_def example_env_def)

lemma issue_calls_prefix: "\<exists>k. calls (snd (issue_all cs d)) = calls d @ take k cs"
proof (induction cs arbitrary: d)
  case Nil
  then show ?case by simp
next
  case (Cons c cs)
  show ?case
  proof (cases "issue c d")
    case (Pair r d')
    have d': "calls d' = calls d @ [c]"
      using Pair by (auto simp: issue_def Let_def effect_calls split: sum.splits)
    show ?thesis
    proof (cases r)
      case (Inl e)
      have "calls (snd (issue_all (c # cs) d)) = calls d @ take 1 (c # cs)"
        using Pair Inl d' by simp
      then show ?thesis by blast
    next
      case (Inr u)
      obtain k where "calls (snd (issue_all cs d')) = calls d' @ take k cs"
        using Cons.IH by blast
      then have "calls (snd (issue_all (c # cs) d)) = calls d @ take (Suc k) (c # cs)"
        using Pair Inr d' by simp
      then show ?thesis by blast
    qed
  qed
qed

lemma launches_take: "set (launches (take k cs)) \<subseteq> set (launches cs)"
proof (induction cs arbitrary: k)
  case Nil
  then show ?case by simp
next
  case (Cons c cs)
  show ?case
  proof (cases k)
    case 0
    then show ?thesis by simp
  next
    case (Suc j)
    have "set (launches (take j cs)) \<subseteq> set (launches cs)"
      by (rule Cons.IH)
    then show ?thesis using Suc by (cases c) auto
  qed
qed

lemma issued_issue_all: "set (launches (issued d (snd (issue_all cs d)))) \<subseteq> set (launches cs)"
proof -
  obtain k where "calls (snd (issue_all cs d)) = calls d @ take k cs"
    using issue_calls_prefix by blast
  then have "issued d (snd (issue_all cs d)) = take k cs"
    by (simp add: issued_def)
  then show ?thesis by (simp add: launches_take)
qed

lemma effect_calls_update: "(effect c d)\<lparr>calls := cs\<rparr> = effect c (d\<lparr>calls := cs\<rparr>)"
  by (cases c) simp_all

lemma issue_all_accepted:
  "accepts d \<Longrightarrow> issue_all cs d = (Inr (), fold effect cs (d\<lparr>calls := calls d @ cs\<rparr>))"
proof (induction cs arbitrary: d)
  case Nil
  then show ?case by simp
next
  case (Cons c cs)
  let ?d1 = "effect c (d\<lparr>calls := calls d @ [c]\<rparr>)"
  have step: "issue c d = (Inr (), ?d1)"
    using Cons.prems by (simp add: issue_accepted)
  have "accepts ?d1"
    using Cons.prems by (simp add: accepts_effect accepts_calls)
  then have "issue_all cs ?d1 = (Inr (), fold effect cs (?d1\<lparr>calls := calls ?d1 @ cs\<rparr>))"
    by (rule Cons.IH)
  moreover have "?d1\<lparr>calls := calls ?d1 @ cs\<rparr> = effect c (d\<lparr>calls := calls d @ c # cs\<rparr>)"
    by (simp add: effect_calls effect_calls_update)
  ultimately show ?case using step by simp
qed

lemma substepDimsplit_launch_args:
  assumes "(st, a) \<in> set (launches (issued d (snd (substepDimsplit s dt k external internal d))))"
  shows "arg_dt a = dt \<and> arg_substep a = k \<and> arg_cfl_data a = ptr (cfl_data s)
         \<and> st = (if external then stream s else internal_stream s)"
proof -
  consider (both) "external \<and> internal" | (ext) "external \<and> \<not> internal"
    | (int) "internal \<and> \<not> external" | (none) "\<not> external \<and> \<not> internal" by blast
  then show ?thesis
  proof cases
    case both
    then have "substepDimsplit s dt k external internal d =
        issue_all [hipModuleLaunchKernel (grid_size s) (block_size s) (stream s)
           (complete_domain s dt k)] d"
      by (simp add: substepDimsplit_def del: issue_all.simps)
    then have "(st, a) \<in> set (launches [hipModuleLaunchKernel (grid_size s) (block_size s)
           (stream s) (complete_domain s dt k)])"
      using assms issued_issue_all by fastforce
    then show ?thesis using both by (simp add: complete_domain_def extra_def)
  next
    case ext
    then have "substepDimsplit s dt k external internal d =
        issue_all
          [hipModuleLaunchKernel (ns_grid_size s) (block_size s) (stream s) (north s dt k),
           hipStreamSynchronize (stream s),
           hipModuleLaunchKernel (ns_grid_size s) (block_size s) (stream s) (south s dt k),
           hipStreamSynchronize (stream s),
           hipModuleLaunchKernel (we_grid_size s) (block_size s) (stream s) (west s dt k),
           hipStreamSynchronize (stream s),
           hipModuleLaunchKernel (we_grid_size s) (block_size s) (stream s) (east s dt k)] d"
      by (simp add: substepDimsplit_def del: issue_all.simps)
    then have "(st, a) \<in> set (launches
          [hipModuleLaunchKernel (ns_grid_size s) (block_size s) (stream s) (north s dt k),
           hipStreamSynchronize (stream s),
           hipModuleLaunchKernel (ns_grid_size s) (block_size s) (stream s) (south s dt k),
           hipStreamSynchronize (stream s),
           hipModuleLaunchKernel (we_grid_size s) (block_size s) (stream s) (west s dt k),
           hipStreamSynchronize (stream s),
           hipModuleLaunchKernel (we_grid_size s) (block_size s) (stream s) (east s dt k)])"
      using assms issued_issue_all by fastforce
    then show ?thesis using ext
      by (auto simp: north_def south_def west_def east_def extra_def)
  next
    case int
    then have "substepDimsplit s dt k external internal d =
        issue_all [hipModuleLaunchKernel (grid_size s) (block_size s) (internal_stream s)
           (internal_domain s dt k)] d"
      by (auto simp add: substepDimsplit_def simp del: issue_all.simps)
    then have "(st, a) \<in> set (launches [hipModuleLaunchKernel (grid_size s) (block_size s)
           (internal_stream s) (internal_domain s dt k)])"
      using assms issued_issue_all by fastforce
    then show ?thesis using int by (simp add: internal_domain_def extra_def)
  next
    case none
    then show ?thesis using assms by (simp add: substepDimsplit_def issued_def)
  qed
qed

lemma isamin_result_range:
  assumes "ys \<noteq> []"
  shows "0 < isamin_result ys \<and> isamin_result ys \<le> length ys
         \<and> \<bar>ys ! (isamin_result ys - 1)\<bar> = Min (set (map abs ys))"
proof -
  let ?m = "Min (set (map abs ys))"
  let ?P = "\<lambda>x. \<bar>x\<bar> \<noteq> ?m"
  have "?m \<in> set (map abs ys)"
    using assms by (intro Min_in) simp_all
  then have "\<exists>x \<in> set ys. \<not> ?P x" by auto
  then have neq: "takeWhile ?P ys \<noteq> ys" by (simp add: takeWhile_eq_all_conv)
  have less: "length (takeWhile ?P ys) < length ys"
  proof (rule ccontr)
    assume "\<not> length (takeWhile ?P ys) < length ys"
    then have "length (takeWhile ?P ys) = length ys"
      using length_takeWhile_le [of ?P ys] by linarith
    then have "takeWhile ?P ys = ys"
      using takeWhile_eq_take [of ?P ys] by simp
    then show False using neq by simp
  qed
  then have "\<not> ?P (ys ! length (takeWhile ?P ys))"
    by (rule nth_length_takeWhile)
  then show ?thesis using less assms by (simp add: isamin_result_def)
qed

lemma isamin_result_nonneg:
  assumes "ys \<noteq> []" and "\<forall>x \<in> set ys. 0 \<le> x"
  shows "ys ! (isamin_result ys - 1) = Min (set ys)"
proof -
  have same: "map abs ys = ys"
    using assms(2) by (simp add: map_idI)
  have "isamin_result ys - 1 < length ys"
    using isamin_result_range [OF assms(1)] by linarith
  then have "ys ! (isamin_result ys - 1) \<in> set ys" by simp
  then have "0 \<le> ys ! (isamin_result ys - 1)" using assms(2) by blast
  then show ?thesis using isamin_result_range [OF assms(1)] same by simp
qed

lemma py_index_isamin:
  assumes "ys \<noteq> []"
  shows "py_index ys (int (isamin_result ys) - 1) = Inr (ys ! (isamin_result ys - 1))"
proof -
  have r: "0 < isamin_result ys" "isamin_result ys \<le> length ys"
    using isamin_result_range [OF assms] by simp_all
  then have "nat (int (isamin_result ys) - 1) = isamin_result ys - 1" by simp
  then show ?thesis using r by (simp add: py_index_def)
qed

lemma min_hipblas_accepted:
  assumes acc: "accepts d" and mem: "memory d (ptr cfl) = Some xs"
    and len: "n \<le> length xs" and pos: "0 < n"
  shows "\<exists>d'. min_hipblas n cfl st d = (Inr (take n xs ! (isamin_result (take n xs) - 1)), d')
     \<and> calls d' = calls d @
         [hipMalloc 4, hipblasCreate, hipblasIsamin n (ptr cfl), hipblasDestroy,
          hipMemcpyAsync indx_d 4 st, hipMemcpyAsync (dev (ptr cfl)) (n * 4) st,
          hipStreamSynchronize st, hipStreamDestroy st, hipFree (ptr cfl)]
     \<and> streams d' = streams d - {st}
     \<and> memory d' = (memory d)(ptr cfl := None)
     \<and> respond d' = respond d \<and> warnings d' = warnings d"
proof -
  let ?first = "[hipMalloc 4, hipblasCreate, hipblasIsamin n (ptr cfl), hipblasDestroy,
          hipMemcpyAsync indx_d 4 st, hipMemcpyAsync (dev (ptr cfl)) (n * 4) st]"
  let ?d1 = "d\<lparr>calls := calls d @ ?first\<rparr>"
  let ?d2 = "?d1\<lparr>calls := calls ?d1 @ [hipStreamSynchronize st]\<rparr>"
  let ?last = "[hipStreamDestroy st, hipFree (ptr cfl)]"
  let ?d3 = "fold effect ?last (?d2\<lparr>calls := calls ?d2 @ ?last\<rparr>)"
  have s1: "issue_all ?first d = (Inr (), ?d1)"
    using issue_all_accepted [OF acc, of ?first] by simp
  have a1: "accepts ?d1" using acc by (simp add: accepts_calls)
  have copy: "device_to_host ?d1 (ptr cfl) n = Some (take n xs)"
    using mem len by (simp add: device_to_host_def)
  have s2: "issue (hipStreamSynchronize st) ?d1 = (Inr (), ?d2)"
    using issue_sync [OF a1, of st] by simp
  have a2: "accepts ?d2" using a1 by (simp add: accepts_calls)
  have ne: "take n xs \<noteq> []" using len pos by auto
  have idx: "py_index (take n xs) (int (isamin_result (take n xs)) - 1)
               = Inr (take n xs ! (isamin_result (take n xs) - 1))"
    using py_index_isamin [OF ne] .
  have s3: "issue_all ?last ?d2 = (Inr (), ?d3)"
    using issue_all_accepted [OF a2, of ?last] by simp
  have "min_hipblas n cfl st d = (Inr (take n xs ! (isamin_result (take n xs) - 1)), ?d3)"
    unfolding min_hipblas_def Let_def
    using s1 copy s2 idx s3 by (simp del: issue_all.simps)
  then show ?thesis by simp
qed


lemma computeDt_accepted:
  assumes acc: "accepts d" and mem: "memory d (ptr (cfl_data s)) = Some xs"
    and len: "size_of (cfl_data s) \<le> length xs" and pos: "0 < size_of (cfl_data s)"
  shows "\<exists>d'. computeDt s d =
           (Inr (take (size_of (cfl_data s)) xs !
                   (isamin_result (take (size_of (cfl_data s)) xs) - 1) * 0.5), d')
     \<and> calls d' = calls d @
         [hipMalloc 4, hipblasCreate, hipblasIsamin (size_of (cfl_data s)) (ptr (cfl_data s)),
          hipblasDestroy, hipMemcpyAsync indx_d 4 (stream s),
          hipMemcpyAsync (dev (ptr (cfl_data s))) (size_of (cfl_data s) * 4) (stream s),
          hipStreamSynchronize (stream s), hipStreamDestroy (stream s),
          hipFree (ptr (cfl_data s))]
     \<and> streams d' = streams d - {stream s}
     \<and> memory d' = (memory d)(ptr (cfl_data s) := None)
     \<and> respond d' = respond d \<and> warnings d' = warnings d"
proof -
  obtain d' where m: "min_hipblas (size_of (cfl_data s)) (cfl_data s) (stream s) d =
      (Inr (take (size_of (cfl_data s)) xs !
              (isamin_result (take (size_of (cfl_data s)) xs) - 1)), d')"
    and rest: "calls d' = calls d @
         [hipMalloc 4, hipblasCreate, hipblasIsamin (size_of (cfl_data s)) (ptr (cfl_data s)),
          hipblasDestroy, hipMemcpyAsync indx_d 4 (stream s),
          hipMemcpyAsync (dev (ptr (cfl_data s))) (size_of (cfl_data s) * 4) (stream s),
          hipStreamSynchronize (stream s), hipStreamDestroy (stream s),
          hipFree (ptr (cfl_data s))]"
      "streams d' = streams d - {stream s}"
      "memory d' = (memory d)(ptr (cfl_data s) := None)"
      "respond d' = respond d" "warnings d' = warnings d"
    using min_hipblas_accepted [OF acc mem len pos, of "stream s"] by blast
  have "computeDt s d =
           (Inr (take (size_of (cfl_data s)) xs !
                   (isamin_result (take (size_of (cfl_data s)) xs) - 1) * 0.5), d')"
    by (simp add: computeDt_def m)
  then show ?thesis using rest by blast
qed


lemma substepDimsplit_external_accepted:
  assumes "accepts d"
  shows "substepDimsplit s dt k True False d =
           (Inr (), d\<lparr>calls := calls d @
              [hipModuleLaunchKernel (ns_grid_size s) (block_size s) (stream s) (north s dt k),
               hipStreamSynchronize (stream s),
               hipModuleLaunchKernel (ns_grid_size s) (block_size s) (stream s) (south s dt k),
               hipStreamSynchronize (stream s),
               hipModuleLaunchKernel (we_grid_size s) (block_size s) (stream s) (west s dt k),
               hipStreamSynchronize (stream s),
               hipModuleLaunchKernel (we_grid_size s) (block_size s) (stream s) (east s dt k)]\<rparr>)"
  using assms by (simp add: substepDimsplit_def issue_all_accepted del: issue_all.simps)

lemma substepDimsplit_complete_accepted:
  assumes "accepts d"
  shows "substepDimsplit s dt k True True d =
           (Inr (), d\<lparr>calls := calls d @
              [hipModuleLaunchKernel (grid_size s) (block_size s) (stream s)
                 (complete_domain s dt k)]\<rparr>)"
  using assms by (simp add: substepDimsplit_def issue_launch)

lemma substepDimsplit_internal_accepted:
  assumes "accepts d"
  shows "substepDimsplit s dt k False True d =
           (Inr (), d\<lparr>calls := calls d @
              [hipModuleLaunchKernel (grid_size s) (block_size s) (internal_stream s)
                 (internal_domain s dt k)]\<rparr>)"
  using assms by (simp add: substepDimsplit_def issue_launch)

lemma strip_is_union:
  assumes "0 \<le> x_halo (rho (u0 s))" "0 \<le> y_halo (rho (u0 s))"
    and "2 * x_halo (rho (u0 s)) \<le> nx s" "2 * y_halo (rho (u0 s)) \<le> ny s"
  shows "cells (north s dt k) \<union> cells (south s dt k) \<union> cells (west s dt k)
           \<union> cells (east s dt k) = boundary_strip s"
  using assms
  by (auto simp: cells_def north_def south_def west_def east_def extra_def
        boundary_strip_def full_rectangle_def)

lemma interior_is_rest:
  assumes "0 \<le> x_halo (rho (u0 s))" "0 \<le> y_halo (rho (u0 s))"
  shows "cells (internal_domain s dt k) = full_rectangle s - boundary_strip s"
  using assms
  by (auto simp: cells_def internal_domain_def extra_def boundary_strip_def full_rectangle_def)

lemma complete_is_full: "cells (complete_domain s dt k) = full_rectangle s"
  by (auto simp: cells_def complete_domain_def extra_def full_rectangle_def)

lemma strip_in_full: "boundary_strip s \<subseteq> full_rectangle s"
  by (auto simp: boundary_strip_def)

lemma example_halo:
  "x_halo (rho (u0 example_sim)) = 2" "y_halo (rho (u0 example_sim)) = 2"
  "nx example_sim = 48" "ny example_sim = 8"
  by (simp_all add: example_sim_def example_fields_def example_array_def)

lemma example_cfl:
  "ptr (cfl_data example_sim) = 9" "size_of (cfl_data example_sim) = 3"
  "stream example_sim = 1" "internal_stream example_sim = 2"
  "memory (example_env xs) 9 = Some xs" "calls (example_env xs) = []"
  "streams (example_env xs) = {1, 2}" "warnings (example_env xs) = []"
  by (simp_all add: example_sim_def example_env_def size_of_def)

lemma substepDimsplit_barriers:
  assumes "accepts d"
    and "hipStreamSynchronize st \<in> set (issued d (snd (substepDimsplit s dt k external internal d)))"
  shows "st = stream s \<and> external \<and> \<not> internal"
proof -
  consider (both) "external \<and> internal" | (ext) "external \<and> \<not> internal"
    | (int) "internal \<and> \<not> external" | (none) "\<not> external \<and> \<not> internal" by blast
  then show ?thesis
  proof cases
    case both
    then have "substepDimsplit s dt k external internal d = substepDimsplit s dt k True True d"
      by simp
    then show ?thesis
      using assms by (simp add: substepDimsplit_complete_accepted issued_append)
  next
    case ext
    then have "substepDimsplit s dt k external internal d = substepDimsplit s dt k True False d"
      by simp
    then show ?thesis
      using assms ext by (simp add: substepDimsplit_external_accepted issued_append)
  next
    case int
    then have "substepDimsplit s dt k external internal d = substepDimsplit s dt k False True d"
      by simp
    then show ?thesis
      using assms by (simp add: substepDimsplit_internal_accepted issued_append)
  next
    case none
    then show ?thesis using assms(2) by (simp add: substepDimsplit_def issued_def)
  qed
qed

lemma computeDt_issued:
  assumes "accepts d" and "memory d (ptr (cfl_data s)) = Some xs"
    and "size_of (cfl_data s) \<le> length xs" and "0 < size_of (cfl_data s)"
  shows "issued d (snd (computeDt s d)) =
         [hipMalloc 4, hipblasCreate, hipblasIsamin (size_of (cfl_data s)) (ptr (cfl_data s)),
          hipblasDestroy, hipMemcpyAsync indx_d 4 (stream s),
          hipMemcpyAsync (dev (ptr (cfl_data s))) (size_of (cfl_data s) * 4) (stream s),
          hipStreamSynchronize (stream s), hipStreamDestroy (stream s),
          hipFree (ptr (cfl_data s))]"
proof -
  obtain v d' where "computeDt s d = (Inr v, d')"
    and "calls d' = calls d @
         [hipMalloc 4, hipblasCreate, hipblasIsamin (size_of (cfl_data s)) (ptr (cfl_data s)),
          hipblasDestroy, hipMemcpyAsync indx_d 4 (stream s),
          hipMemcpyAsync (dev (ptr (cfl_data s))) (size_of (cfl_data s) * 4) (stream s),
          hipStreamSynchronize (stream s), hipStreamDestroy (stream s),
          hipFree (ptr (cfl_data s))]"
    using computeDt_accepted [OF assms] by blast
  then show ?thesis by (simp add: issued_def)
qed


section \<open>The claims\<close>

text \<open>
  C1. For a grid with non-negative halo widths (2 in the source) such that \<open>nx\<close> and
  \<open>ny\<close> are at least twice the halo, the four rectangles that external-only mode hands
  to the kernel are north, south, west and east, and their union is the boundary strip
  of width halo of the full rectangle; the rectangle of internal-only mode is the full
  rectangle without that strip, so that strip and interior cover the grid and share no
  cell.
\<close>

theorem regions_cover_grid:
  assumes "accepts d"
    and "0 \<le> x_halo (rho (u0 s))" and "0 \<le> y_halo (rho (u0 s))"
    and "2 * x_halo (rho (u0 s)) \<le> nx s" and "2 * y_halo (rho (u0 s)) \<le> ny s"
  shows "map snd (launches (issued d (snd (substepDimsplit s dt k True False d)))) =
           [north s dt k, south s dt k, west s dt k, east s dt k]
       \<and> cells (north s dt k) \<union> cells (south s dt k) \<union> cells (west s dt k)
           \<union> cells (east s dt k) = boundary_strip s
       \<and> map snd (launches (issued d (snd (substepDimsplit s dt k False True d)))) =
           [internal_domain s dt k]
       \<and> cells (internal_domain s dt k) = full_rectangle s - boundary_strip s
       \<and> boundary_strip s \<union> cells (internal_domain s dt k) = full_rectangle s
       \<and> boundary_strip s \<inter> cells (internal_domain s dt k) = {}"
proof -
  have ext: "map snd (launches (issued d (snd (substepDimsplit s dt k True False d)))) =
           [north s dt k, south s dt k, west s dt k, east s dt k]"
    using assms(1) by (simp add: substepDimsplit_external_accepted issued_append)
  have int: "map snd (launches (issued d (snd (substepDimsplit s dt k False True d)))) =
           [internal_domain s dt k]"
    using assms(1) by (simp add: substepDimsplit_internal_accepted issued_append)
  have strip: "cells (north s dt k) \<union> cells (south s dt k) \<union> cells (west s dt k)
           \<union> cells (east s dt k) = boundary_strip s"
    using assms(2-5) by (rule strip_is_union)
  have rest: "cells (internal_domain s dt k) = full_rectangle s - boundary_strip s"
    using assms(2,3) by (rule interior_is_rest)
  have "boundary_strip s \<union> cells (internal_domain s dt k) = full_rectangle s"
    using rest strip_in_full [of s] by blast
  moreover have "boundary_strip s \<inter> cells (internal_domain s dt k) = {}"
    using rest by blast
  ultimately show ?thesis using ext int strip rest by blast
qed

theorem regions_cover_grid_witness:
  "accepts (example_env [])
   \<and> x_halo (rho (u0 example_sim)) = 2 \<and> y_halo (rho (u0 example_sim)) = 2
   \<and> nx example_sim = 48 \<and> ny example_sim = 8
   \<and> cells (north example_sim 1 0) \<union> cells (south example_sim 1 0)
       \<union> cells (west example_sim 1 0) \<union> cells (east example_sim 1 0)
       = boundary_strip example_sim
   \<and> cells (internal_domain example_sim 1 0)
       = full_rectangle example_sim - boundary_strip example_sim
   \<and> (0, 7) \<in> boundary_strip example_sim \<and> (2, 2) \<in> cells (internal_domain example_sim 1 0)"
proof -
  have h: "accepts (example_env [])" by (rule example_env_accepts)
  have "(0, 7) \<in> boundary_strip example_sim"
    by (simp add: boundary_strip_def full_rectangle_def example_halo)
  moreover have "(2, 2) \<in> cells (internal_domain example_sim 1 0)"
    by (simp add: cells_def internal_domain_def extra_def example_halo)
  ultimately show ?thesis
    using h regions_cover_grid [OF h, of example_sim 1 0] by (simp add: example_halo)
qed

text \<open>
  C2, as amended. For a CFL buffer that is not empty and holds no negative value, with a
  runtime that accepts every call, \<^verbatim>\<open>min_hipblas\<close> returns the least value of the
  buffer, wherever it stands, and \<^verbatim>\<open>computeDt\<close> returns that value times 0.5.
\<close>

theorem computeDt_minimum:
  assumes "accepts d" and "memory d (ptr (cfl_data s)) = Some xs"
    and "size_of (cfl_data s) = length xs" and "xs \<noteq> []" and "\<forall>x \<in> set xs. 0 \<le> x"
  shows "fst (min_hipblas (length xs) (cfl_data s) (stream s) d) = Inr (Min (set xs))
       \<and> fst (computeDt s d) = Inr (0.5 * Min (set xs))"
proof -
  have pos: "0 < length xs" using assms(4) by simp
  have v: "xs ! (isamin_result xs - 1) = Min (set xs)"
    using assms(4,5) by (rule isamin_result_nonneg)
  obtain d1 where "min_hipblas (length xs) (cfl_data s) (stream s) d =
      (Inr (take (length xs) xs ! (isamin_result (take (length xs) xs) - 1)), d1)"
    using min_hipblas_accepted [OF assms(1,2) order_refl pos, of "stream s"] by blast
  then have m: "fst (min_hipblas (length xs) (cfl_data s) (stream s) d) = Inr (Min (set xs))"
    using v by simp
  have len: "size_of (cfl_data s) \<le> length xs" and pos': "0 < size_of (cfl_data s)"
    using assms(3) pos by simp_all
  obtain d2 where "computeDt s d =
      (Inr (take (size_of (cfl_data s)) xs !
              (isamin_result (take (size_of (cfl_data s)) xs) - 1) * 0.5), d2)"
    using computeDt_accepted [OF assms(1,2) len pos'] by blast
  then have "fst (computeDt s d) = Inr (0.5 * Min (set xs))"
    using v assms(3) by simp
  then show ?thesis using m by simp
qed

theorem computeDt_minimum_witness:
  "accepts (example_env [3, 2, 1])
   \<and> memory (example_env [3, 2, 1]) (ptr (cfl_data example_sim)) = Some [3, 2, 1]
   \<and> size_of (cfl_data example_sim) = length [3, 2, 1 :: real]
   \<and> (0 :: real) \<le> 3 \<and> (0 :: real) \<le> 2 \<and> (0 :: real) \<le> 1
   \<and> fst (min_hipblas (length [3, 2, 1 :: real]) (cfl_data example_sim) (stream example_sim)
          (example_env [3, 2, 1])) = Inr 1
   \<and> fst (computeDt example_sim (example_env [3, 2, 1])) = Inr 0.5"
proof -
  have h1: "accepts (example_env [3, 2, 1])" by (rule example_env_accepts)
  have h2: "memory (example_env [3, 2, 1]) (ptr (cfl_data example_sim)) = Some [3, 2, 1]"
    by (simp add: example_cfl)
  have h3: "size_of (cfl_data example_sim) = length [3, 2, 1 :: real]"
    by (simp add: example_cfl)
  have h4: "[3, 2, 1 :: real] \<noteq> []" by simp
  have h5: "\<forall>x \<in> set [3, 2, 1 :: real]. 0 \<le> x" by simp
  have m: "Min (set [3, 2, 1 :: real]) = 1" by simp
  show ?thesis
    using computeDt_minimum [OF h1 h2 h3 h4 h5] h1 h2 h3 h5 unfolding m by simp
qed

text \<open>
  C2 as stated fails on a buffer with a negative value: the routine picks the element of
  least magnitude, so for the buffer 2, -5, 1 the result is 1 and not the minimum -5.
\<close>

theorem computeDt_least_magnitude_counterexample:
  "fst (min_hipblas 3 (cfl_data example_sim) (stream example_sim) (example_env [2, -5, 1]))
     = Inr 1
   \<and> fst (computeDt example_sim (example_env [2, -5, 1])) = Inr 0.5
   \<and> Min (set [2, -5, 1 :: real]) = -5"
proof -
  have i: "isamin_result [2, -5, 1 :: real] = 3"
    by (simp add: isamin_result_def)
  obtain d' where "min_hipblas 3 (cfl_data example_sim) (stream example_sim)
      (example_env [2, -5, 1]) = (Inr (take 3 [2, -5, 1] ! (isamin_result (take 3 [2, -5, 1]) - 1)), d')"
    using min_hipblas_accepted [where d = "example_env [2, -5, 1]" and cfl = "cfl_data example_sim"
        and xs = "[2, -5, 1]" and n = 3 and st = "stream example_sim"]
    by (auto simp: example_cfl example_env_accepts)
  then have m: "min_hipblas 3 (cfl_data example_sim) (stream example_sim)
      (example_env [2, -5, 1]) = (Inr 1, d')"
    using i by simp
  then have "computeDt example_sim (example_env [2, -5, 1]) = (Inr 0.5, d')"
    by (simp add: computeDt_def example_cfl)
  then show ?thesis using m by simp
qed

text \<open>
  C3, as amended. In external-only mode, with a runtime that accepts every call,
  \<^verbatim>\<open>substepDimsplit\<close> issues exactly four launches, in the order north, south, west,
  east, all on the primary stream; a barrier on the primary stream follows each of the
  north, south and west launches before the next launch, and the east launch is the last
  call of the method.
\<close>

theorem substepDimsplit_external_only:
  assumes "accepts d"
  shows "substepDimsplit s dt k True False d =
           (Inr (), d\<lparr>calls := calls d @
              [hipModuleLaunchKernel (ns_grid_size s) (block_size s) (stream s) (north s dt k),
               hipStreamSynchronize (stream s),
               hipModuleLaunchKernel (ns_grid_size s) (block_size s) (stream s) (south s dt k),
               hipStreamSynchronize (stream s),
               hipModuleLaunchKernel (we_grid_size s) (block_size s) (stream s) (west s dt k),
               hipStreamSynchronize (stream s),
               hipModuleLaunchKernel (we_grid_size s) (block_size s) (stream s) (east s dt k)]\<rparr>)"
  using assms by (rule substepDimsplit_external_accepted)

theorem substepDimsplit_external_only_witness:
  "accepts (example_env [])
   \<and> issued (example_env []) (snd (substepDimsplit example_sim 1 0 True False (example_env []))) =
       [hipModuleLaunchKernel (3, 1, 1) (16, 8, 1) 1 (north example_sim 1 0),
        hipStreamSynchronize 1,
        hipModuleLaunchKernel (3, 1, 1) (16, 8, 1) 1 (south example_sim 1 0),
        hipStreamSynchronize 1,
        hipModuleLaunchKernel (1, 1, 1) (16, 8, 1) 1 (west example_sim 1 0),
        hipStreamSynchronize 1,
        hipModuleLaunchKernel (1, 1, 1) (16, 8, 1) 1 (east example_sim 1 0)]"
proof -
  have h: "accepts (example_env [])" by (rule example_env_accepts)
  have "grid_size example_sim = (3, 1, 1)" "block_size example_sim = (16, 8, 1)"
    by (simp_all add: example_sim_def)
  then show ?thesis
    using h substepDimsplit_external_only [OF h, of example_sim 1 0]
    by (simp add: issued_def ns_grid_size_def we_grid_size_def example_cfl)
qed

text \<open>
  C3 as stated fails: in the calls of external-only mode not every launch is followed by
  a barrier, since none follows the east launch.
\<close>

theorem external_barriers_counterexample:
  "\<not> launches_followed_by_barrier
        (issued (example_env []) (snd (substepDimsplit example_sim 1 0 True False (example_env []))))"
  by (simp add: substepDimsplit_external_accepted [OF example_env_accepts] issued_def)

text \<open>
  C4. \<^verbatim>\<open>substep\<close> is \<^verbatim>\<open>substepDimsplit\<close> at half the time step with the step number as
  substep index and the flags unchanged, and every launch it issues carries the time
  step \<open>0.5 * dt\<close> and the substep index \<open>step_number\<close>.
\<close>

theorem substep_halves_dt:
  "substep s dt step_number external internal d =
     substepDimsplit s (0.5 * dt) step_number external internal d
   \<and> (\<forall>(st, a) \<in> set (launches (issued d (snd (substep s dt step_number external internal d)))).
         arg_dt a = 0.5 * dt \<and> arg_substep a = step_number)"
  unfolding substep_def using substepDimsplit_launch_args [of _ _ d s "0.5 * dt" step_number]
  by blast

theorem substep_halves_dt_witness:
  "launches (issued (example_env []) (snd (substep example_sim 3 1 True True (example_env []))))
     = [(1, complete_domain example_sim 1.5 1)]
   \<and> arg_dt (complete_domain example_sim 1.5 1) = 1.5
   \<and> arg_substep (complete_domain example_sim 1.5 1) = 1"
proof -
  have l: "launches (issued (example_env []) (snd (substep example_sim 3 1 True True (example_env []))))
     = [(1, complete_domain example_sim 1.5 1)]"
    by (simp add: substep_def substepDimsplit_complete_accepted [OF example_env_accepts]
          issued_def example_cfl)
  then show ?thesis
    using substep_halves_dt [of example_sim 3 1 True True "example_env []"]
    by (simp add: substep_def)
qed

text \<open>
  C5. With both flags true and a runtime that accepts every call, \<^verbatim>\<open>substepDimsplit\<close>
  issues one call only: a launch on the primary stream with the full grid of blocks and
  the sub-rectangle \<open>x0 = 0\<close>, \<open>y0 = 0\<close>, \<open>x1 = nx\<close>, \<open>y1 = ny\<close>. No other launch and no
  barrier is issued.
\<close>

theorem substepDimsplit_complete_domain:
  assumes "accepts d"
  shows "substepDimsplit s dt k True True d =
           (Inr (), d\<lparr>calls := calls d @
              [hipModuleLaunchKernel (grid_size s) (block_size s) (stream s)
                 (complete_domain s dt k)]\<rparr>)
         \<and> arg_x0 (complete_domain s dt k) = 0 \<and> arg_y0 (complete_domain s dt k) = 0
         \<and> arg_x1 (complete_domain s dt k) = nx s \<and> arg_y1 (complete_domain s dt k) = ny s"
  using assms by (simp add: substepDimsplit_complete_accepted complete_domain_def extra_def)

theorem substepDimsplit_complete_domain_witness:
  "accepts (example_env [])
   \<and> issued (example_env []) (snd (substepDimsplit example_sim 1 0 True True (example_env []))) =
       [hipModuleLaunchKernel (3, 1, 1) (16, 8, 1) 1 (complete_domain example_sim 1 0)]
   \<and> arg_x0 (complete_domain example_sim 1 0) = 0 \<and> arg_y0 (complete_domain example_sim 1 0) = 0
   \<and> arg_x1 (complete_domain example_sim 1 0) = 48 \<and> arg_y1 (complete_domain example_sim 1 0) = 8"
proof -
  have h: "accepts (example_env [])" by (rule example_env_accepts)
  have "grid_size example_sim = (3, 1, 1)" "block_size example_sim = (16, 8, 1)"
    by (simp_all add: example_sim_def)
  then show ?thesis
    using h substepDimsplit_complete_domain [OF h, of example_sim 1 0]
    by (simp add: issued_def example_cfl example_halo)
qed

text \<open>
  C6. In internal-only mode, with a runtime that accepts every call,
  \<^verbatim>\<open>substepDimsplit\<close> issues one call only: a launch on the stream
  \<^verbatim>\<open>internal_stream\<close> with the sub-rectangle from \<open>(x_halo, y_halo)\<close> to
  \<open>(nx - x_halo, ny - y_halo)\<close>.
\<close>

theorem substepDimsplit_internal_domain:
  assumes "accepts d"
  shows "substepDimsplit s dt k False True d =
           (Inr (), d\<lparr>calls := calls d @
              [hipModuleLaunchKernel (grid_size s) (block_size s) (internal_stream s)
                 (internal_domain s dt k)]\<rparr>)
         \<and> arg_x0 (internal_domain s dt k) = x_halo (rho (u0 s))
         \<and> arg_y0 (internal_domain s dt k) = y_halo (rho (u0 s))
         \<and> arg_x1 (internal_domain s dt k) = nx s - x_halo (rho (u0 s))
         \<and> arg_y1 (internal_domain s dt k) = ny s - y_halo (rho (u0 s))"
  using assms by (simp add: substepDimsplit_internal_accepted internal_domain_def extra_def)

theorem substepDimsplit_internal_domain_witness:
  "accepts (example_env [])
   \<and> issued (example_env []) (snd (substepDimsplit example_sim 1 0 False True (example_env []))) =
       [hipModuleLaunchKernel (3, 1, 1) (16, 8, 1) 2 (internal_domain example_sim 1 0)]
   \<and> stream example_sim = 1 \<and> internal_stream example_sim = 2
   \<and> arg_x0 (internal_domain example_sim 1 0) = 2 \<and> arg_y0 (internal_domain example_sim 1 0) = 2
   \<and> arg_x1 (internal_domain example_sim 1 0) = 46 \<and> arg_y1 (internal_domain example_sim 1 0) = 6"
proof -
  have h: "accepts (example_env [])" by (rule example_env_accepts)
  have "grid_size example_sim = (3, 1, 1)" "block_size example_sim = (16, 8, 1)"
    by (simp_all add: example_sim_def)
  then show ?thesis
    using h substepDimsplit_internal_domain [OF h, of example_sim 1 0]
    by (simp add: issued_def example_cfl example_halo)
qed

text \<open>
  C7. \<^verbatim>\<open>swapBuffers\<close> exchanges the two references and changes nothing else, so the
  buffers that were written become the buffers that are read, by their own pointers;
  applying it twice gives the simulator back; \<^verbatim>\<open>getOutput\<close> returns the FieldSet of
  \<^verbatim>\<open>u0\<close>, the one whose buffers each launch reads.
\<close>

theorem swapBuffers_involution:
  "swapBuffers (swapBuffers s) = s
   \<and> swapBuffers s = s\<lparr>u0 := u1 s, u1 := u0 s\<rparr>
   \<and> getOutput s = u0 s
   \<and> getOutput (swapBuffers s) = u1 s
   \<and> cfl_data (swapBuffers s) = cfl_data s
   \<and> arg_read (extra s dt k x0 y0 x1 y1) = buffers (getOutput s)
   \<and> arg_read (extra (swapBuffers s) dt k x0 y0 x1 y1) = arg_write (extra s dt k x0 y0 x1 y1)
   \<and> arg_write (extra (swapBuffers s) dt k x0 y0 x1 y1) = arg_read (extra s dt k x0 y0 x1 y1)"
  by (simp add: swapBuffers_def getOutput_def extra_def)

text \<open>
  C9, as amended. With both flags false \<^verbatim>\<open>substepDimsplit\<close> does nothing, whatever the
  runtime answers: it returns without an exception, issues no call, leaves the
  environment as it was, and emits no warning.
\<close>

theorem substepDimsplit_no_flags:
  "substepDimsplit s dt k False False d = (Inr (), d)
   \<and> issued d (snd (substepDimsplit s dt k False False d)) = []
   \<and> warnings (snd (substepDimsplit s dt k False False d)) = warnings d"
  by (simp add: substepDimsplit_def issued_def)

text \<open>
  C9 as stated fails in its last part: with both flags false no warning is produced.
\<close>

theorem substepDimsplit_no_warning_counterexample:
  "fst (substepDimsplit example_sim 1 0 False False (example_env [])) = Inr ()
   \<and> warnings (snd (substepDimsplit example_sim 1 0 False False (example_env []))) = []"
  by (simp add: substepDimsplit_def example_cfl)

text \<open>
  C8, as amended. With a runtime that accepts every call and a readable CFL buffer,
  \<^verbatim>\<open>computeDt\<close> issues one barrier only, on the primary stream, after the reduction
  \<^verbatim>\<open>hipblasIsamin\<close> and after the two copies to the host have been enqueued on that
  stream, so that only the host's reading of the copied values follows a barrier; and
  the barriers of \<^verbatim>\<open>substepDimsplit\<close> are those of external-only mode on the primary
  stream, so that no barrier is ever issued on the internal stream.
\<close>

theorem computeDt_barrier:
  assumes "accepts d" and "memory d (ptr (cfl_data s)) = Some xs"
    and "size_of (cfl_data s) \<le> length xs" and "0 < size_of (cfl_data s)"
  shows "issued d (snd (computeDt s d)) =
         [hipMalloc 4, hipblasCreate, hipblasIsamin (size_of (cfl_data s)) (ptr (cfl_data s)),
          hipblasDestroy, hipMemcpyAsync indx_d 4 (stream s),
          hipMemcpyAsync (dev (ptr (cfl_data s))) (size_of (cfl_data s) * 4) (stream s),
          hipStreamSynchronize (stream s), hipStreamDestroy (stream s),
          hipFree (ptr (cfl_data s))]
       \<and> (\<forall>dt k external internal st.
             hipStreamSynchronize st
               \<in> set (issued d (snd (substepDimsplit s dt k external internal d)))
             \<longrightarrow> st = stream s \<and> external \<and> \<not> internal)"
  using computeDt_issued [OF assms] substepDimsplit_barriers [OF assms(1)] by blast

theorem computeDt_barrier_witness:
  "accepts (example_env [3, 2, 1])
   \<and> memory (example_env [3, 2, 1]) (ptr (cfl_data example_sim)) = Some [3, 2, 1]
   \<and> size_of (cfl_data example_sim) \<le> length [3, 2, 1 :: real]
   \<and> 0 < size_of (cfl_data example_sim)
   \<and> issued (example_env [3, 2, 1]) (snd (computeDt example_sim (example_env [3, 2, 1]))) =
         [hipMalloc 4, hipblasCreate, hipblasIsamin 3 9, hipblasDestroy,
          hipMemcpyAsync indx_d 4 1, hipMemcpyAsync (dev 9) 12 1,
          hipStreamSynchronize 1, hipStreamDestroy 1, hipFree 9]
   \<and> hipStreamSynchronize 1
        \<in> set (issued (example_env [3, 2, 1])
                 (snd (substepDimsplit example_sim 1 0 True False (example_env [3, 2, 1]))))
   \<and> stream example_sim = 1"
proof -
  have h1: "accepts (example_env [3, 2, 1])" by (rule example_env_accepts)
  have h2: "memory (example_env [3, 2, 1]) (ptr (cfl_data example_sim)) = Some [3, 2, 1]"
    by (simp add: example_cfl)
  have h3: "size_of (cfl_data example_sim) \<le> length [3, 2, 1 :: real]"
    by (simp add: example_cfl)
  have h4: "0 < size_of (cfl_data example_sim)"
    by (simp add: example_cfl)
  have b: "hipStreamSynchronize 1
        \<in> set (issued (example_env [3, 2, 1])
                 (snd (substepDimsplit example_sim 1 0 True False (example_env [3, 2, 1]))))"
    by (simp add: substepDimsplit_external_accepted [OF h1] issued_def example_cfl)
  note t = computeDt_barrier [OF h1 h2 h3 h4]
  have c1: "issued (example_env [3, 2, 1]) (snd (computeDt example_sim (example_env [3, 2, 1]))) =
         [hipMalloc 4, hipblasCreate, hipblasIsamin 3 9, hipblasDestroy,
          hipMemcpyAsync indx_d 4 1, hipMemcpyAsync (dev 9) 12 1,
          hipStreamSynchronize 1, hipStreamDestroy 1, hipFree 9]"
    using t [THEN conjunct1] by (simp add: example_cfl)
  have c2: "stream example_sim = 1"
    using t [THEN conjunct2, rule_format, where st = 1 and dt = 1 and k = 0
        and external = True and internal = False] b by simp
  show ?thesis
    using h1 h2 h3 h4 c1 b c2 by (intro conjI)
qed

text \<open>
  C8 as stated fails: after a full-domain substep, and after an internal-only substep,
  \<^verbatim>\<open>computeDt\<close> issues the reduction while a launch writing the CFL buffer is not yet
  followed by a barrier on its stream, and after the internal-only substep no barrier on
  the internal stream is issued at all.
\<close>

theorem reduction_before_barrier_counterexample:
  "\<not> reduction_after_barrier []
        (issued (example_env [3, 2, 1])
           (snd (computeDt example_sim
              (snd (substepDimsplit example_sim 1 0 True True (example_env [3, 2, 1]))))))
   \<and> \<not> reduction_after_barrier []
        (issued (example_env [3, 2, 1])
           (snd (computeDt example_sim
              (snd (substepDimsplit example_sim 1 0 False True (example_env [3, 2, 1]))))))
   \<and> hipStreamSynchronize (internal_stream example_sim)
        \<notin> set (issued (example_env [3, 2, 1])
           (snd (computeDt example_sim
              (snd (substepDimsplit example_sim 1 0 False True (example_env [3, 2, 1]))))))"
proof -
  let ?e = "example_env [3, 2, 1]"
  have acc: "accepts ?e" by (rule example_env_accepts)
  have run: "issued ?e (snd (computeDt example_sim (?e\<lparr>calls := calls ?e @ [c]\<rparr>))) =
         [c, hipMalloc 4, hipblasCreate, hipblasIsamin 3 9, hipblasDestroy,
          hipMemcpyAsync indx_d 4 1, hipMemcpyAsync (dev 9) 12 1,
          hipStreamSynchronize 1, hipStreamDestroy 1, hipFree 9]" for c
  proof -
    let ?d = "?e\<lparr>calls := calls ?e @ [c]\<rparr>"
    have a: "accepts ?d" using acc by (simp add: accepts_calls)
    have m: "memory ?d (ptr (cfl_data example_sim)) = Some [3, 2, 1]"
      by (simp add: example_cfl)
    have l: "size_of (cfl_data example_sim) \<le> length [3, 2, 1 :: real]"
      and p: "0 < size_of (cfl_data example_sim)"
      by (simp_all add: example_cfl)
    have "issued ?d (snd (computeDt example_sim ?d)) =
         [hipMalloc 4, hipblasCreate, hipblasIsamin 3 9, hipblasDestroy,
          hipMemcpyAsync indx_d 4 1, hipMemcpyAsync (dev 9) 12 1,
          hipStreamSynchronize 1, hipStreamDestroy 1, hipFree 9]"
      using computeDt_issued [OF a m l p] by (simp add: example_cfl)
    then have "drop (Suc 0) (calls (snd (computeDt example_sim ?d))) =
         [hipMalloc 4, hipblasCreate, hipblasIsamin 3 9, hipblasDestroy,
          hipMemcpyAsync indx_d 4 1, hipMemcpyAsync (dev 9) 12 1,
          hipStreamSynchronize 1, hipStreamDestroy 1, hipFree 9]"
      by (simp add: issued_def example_cfl)
    moreover have "\<exists>k. calls (snd (computeDt example_sim ?d)) = calls ?d @ k"
      using computeDt_accepted [OF a m l p] by auto
    ultimately show ?thesis by (auto simp: issued_def example_cfl)
  qed
  have both: "snd (substepDimsplit example_sim 1 0 True True ?e) =
      ?e\<lparr>calls := calls ?e @ [hipModuleLaunchKernel (grid_size example_sim)
         (block_size example_sim) (stream example_sim) (complete_domain example_sim 1 0)]\<rparr>"
    by (simp add: substepDimsplit_complete_accepted [OF acc])
  have int: "snd (substepDimsplit example_sim 1 0 False True ?e) =
      ?e\<lparr>calls := calls ?e @ [hipModuleLaunchKernel (grid_size example_sim)
         (block_size example_sim) (internal_stream example_sim)
         (internal_domain example_sim 1 0)]\<rparr>"
    by (simp add: substepDimsplit_internal_accepted [OF acc])
  show ?thesis
    unfolding both int run
    by (simp add: complete_domain_def internal_domain_def extra_def example_cfl)
qed



end
